theory Spec2Isabelle
  imports Complex_Main
begin

section \<open>Conventions of the embedding\<close>

text \<open>
  The development embeds three routines of \<^verbatim>\<open>src/gan/gen_pyt/model/nn_utils.py\<close>:
  \<^verbatim>\<open>length_array_to_mask_tensor\<close>, \<^verbatim>\<open>dot_prod_attention\<close> and the class
  \<^verbatim>\<open>LabelSmoothing\<close>.

  \<^item> A tensor is a nested list; its shape is read from the data, so an axis of size 0
    hides the sizes of the axes inside it.
  \<^item> Tensor entries that the source computes in floating point are real numbers here:
    rounding, overflow and underflow are not modelled. The two special values the
    routines can produce from finite inputs are kept as constructors: negative infinity
    (written by \<^verbatim>\<open>masked_fill_\<close>) and NaN (the quotient \<open>0 / 0\<close> of a softmax row, the
    logarithm of a negative number).
  \<^item> A Python exception is a value of type \<open>error\<close>; a function that can raise returns
    \<open>error + 'a\<close>, with \<open>Inl\<close> for the exception.
  \<^item> The \<^verbatim>\<open>cuda\<close> flag of the source moves a tensor to another device and leaves its
    entries alone; it is not a parameter of the model.
\<close>

datatype error = ValueError | IndexError | ZeroDivisionError | RuntimeError


section \<open>The mask builder\<close>

text \<open>
  \<^verbatim>\<open>
  def length_array_to_mask_tensor(length_array, cuda=False, valid_entry_has_mask_one=False):
      max_len = max(length_array)
      batch_size = len(length_array)

      mask = np.zeros((batch_size, max_len), dtype=np.uint8)
      for i, seq_len in enumerate(length_array):
          if valid_entry_has_mask_one:
              mask[i][:seq_len] = 1
          else:
              mask[i][seq_len:] = 1

      mask = torch.ByteTensor(mask)
      return mask.cuda() if cuda else mask
  \<close>
\<close>

text \<open>Python's \<^verbatim>\<open>max\<close> of a non-empty list: a left-to-right scan from the first element.\<close>

definition py_max :: "int list \<Rightarrow> error + int" where
  "py_max xs = (case xs of [] \<Rightarrow> Inl ValueError | x # ys \<Rightarrow> Inr (fold max ys x))"

text \<open>
  The position a slice bound \<open>k\<close> denotes in a sequence of length \<open>n\<close>: a negative bound
  counts from the end, and every bound is clipped to \<open>0 .. n\<close>.
\<close>

definition slice_bound :: "nat \<Rightarrow> int \<Rightarrow> nat" where
  "slice_bound n k =
     (if k < 0 then (if int n + k < 0 then 0 else nat (int n + k))
      else (if int n < k then n else nat k))"

text \<open>
  One pass of the loop body on a row of zeros of length \<open>max_len\<close>:
  \<^verbatim>\<open>mask[i][:seq_len] = 1\<close> sets the positions before the bound,
  \<^verbatim>\<open>mask[i][seq_len:] = 1\<close> the positions from the bound on.
\<close>

definition mask_row :: "bool \<Rightarrow> nat \<Rightarrow> int \<Rightarrow> nat list" where
  "mask_row valid_entry_has_mask_one max_len seq_len =
     (let k = slice_bound max_len seq_len in
      if valid_entry_has_mask_one
      then map (\<lambda>j. if j < k then 1 else 0) [0..<max_len]
      else map (\<lambda>j. if k \<le> j then 1 else 0) [0..<max_len])"

text \<open>
  \<^verbatim>\<open>max\<close> raises ValueError on the empty list and \<^verbatim>\<open>np.zeros\<close> raises ValueError on
  a negative dimension; nothing else in the function can raise on a list of integers.
\<close>

definition length_array_to_mask_tensor :: "int list \<Rightarrow> bool \<Rightarrow> error + nat list list" where
  "length_array_to_mask_tensor length_array valid_entry_has_mask_one =
     (case py_max length_array of
        Inl e \<Rightarrow> Inl e
      | Inr max_len \<Rightarrow>
          if max_len < 0 then Inl ValueError
          else Inr (map (mask_row valid_entry_has_mask_one (nat max_len)) length_array))"

text \<open>The marker a valid position carries under a polarity, and the one a padding position carries.\<close>

definition valid_marker :: "bool \<Rightarrow> nat" where
  "valid_marker valid_entry_has_mask_one = (if valid_entry_has_mask_one then 1 else 0)"

definition padding_marker :: "bool \<Rightarrow> nat" where
  "padding_marker valid_entry_has_mask_one = (if valid_entry_has_mask_one then 0 else 1)"

definition is_failure :: "error + 'a \<Rightarrow> bool" where
  "is_failure r = (case r of Inl _ \<Rightarrow> True | Inr _ \<Rightarrow> False)"


section \<open>Shapes and broadcasting\<close>

definition has_shape2 :: "nat \<Rightarrow> nat \<Rightarrow> 'a list list \<Rightarrow> bool" where
  "has_shape2 b l x = (length x = b \<and> (\<forall>r \<in> set x. length r = l))"

definition has_shape3 :: "nat \<Rightarrow> nat \<Rightarrow> nat \<Rightarrow> 'a list list list \<Rightarrow> bool" where
  "has_shape3 b l d x = (length x = b \<and> (\<forall>m \<in> set x. has_shape2 l d m))"

text \<open>
  PyTorch broadcasts an axis of size 1 against an axis of size \<open>n\<close>; an axis of any other
  size must be \<open>n\<close> itself.
\<close>

definition broadcastable :: "nat \<Rightarrow> 'a list \<Rightarrow> bool" where
  "broadcastable n xs = (length xs = n \<or> length xs = 1)"

definition broadcast :: "nat \<Rightarrow> 'a list \<Rightarrow> 'a list" where
  "broadcast n xs = (if length xs = n then xs else replicate n (hd xs))"


section \<open>The attention engine\<close>

text \<open>
  \<^verbatim>\<open>
  def dot_prod_attention(h_t, src_encoding, src_encoding_att_linear, mask=None):
      """
      :param h_t: (batch_size, hidden_size)
      :param src_encoding: (batch_size, src_sent_len, hidden_size * 2)
      :param src_encoding_att_linear: (batch_size, src_sent_len, hidden_size)
      :param mask: (batch_size, src_sent_len)
      """
      # (batch_size, src_sent_len)
      att_weight = torch.bmm(src_encoding_att_linear, h_t.unsqueeze(2)).squeeze(2)
      if mask is not None:
          att_weight.data.masked_fill_(mask.bool(), -float('inf'))
      att_weight = F.softmax(att_weight, dim=-1)

      att_view = (att_weight.size(0), 1, att_weight.size(1))
      # (batch_size, hidden_size)
      ctx_vec = torch.bmm(att_weight.view(*att_view), src_encoding).squeeze(1)

      return ctx_vec, att_weight
  \<close>
\<close>

text \<open>An entry of \<^verbatim>\<open>att_weight\<close> after \<^verbatim>\<open>masked_fill_\<close>: a raw score or negative infinity.\<close>

datatype score = Finite real | NegInf

text \<open>An entry of a tensor the routines return: a number or NaN.\<close>

datatype fl = Val real | NaN

definition dot :: "real list \<Rightarrow> real list \<Rightarrow> real" where
  "dot xs ys = sum_list (map2 (*) xs ys)"

text \<open>
  \<^verbatim>\<open>torch.bmm(src_encoding_att_linear, h_t.unsqueeze(2)).squeeze(2)\<close>: for every batch
  element the product of its \<open>(src_sent_len, hidden_size)\<close> matrix with its query, seen as a
  \<open>(hidden_size, 1)\<close> column. \<^verbatim>\<open>bmm\<close> raises RuntimeError when the batch sizes or the inner
  sizes differ.
\<close>

definition bmm_vec :: "real list list list \<Rightarrow> real list list \<Rightarrow> error + real list list" where
  "bmm_vec m v =
     (if length m \<noteq> length v then Inl RuntimeError
      else if \<exists>(rows, q) \<in> set (zip m v). \<exists>r \<in> set rows. length r \<noteq> length q
        then Inl RuntimeError
      else Inr (map2 (\<lambda>rows q. map (\<lambda>r. dot r q) rows) m v))"

text \<open>
  \<^verbatim>\<open>att_weight.data.masked_fill_(mask.bool(), -float('inf'))\<close>: \<^verbatim>\<open>mask.bool()\<close> is true at
  every nonzero entry; the mask is broadcast to the shape of \<^verbatim>\<open>att_weight\<close>, and the call
  raises RuntimeError when it cannot be.
\<close>

definition fill_row :: "real list \<Rightarrow> nat list \<Rightarrow> score list" where
  "fill_row a m = map2 (\<lambda>x b. if b \<noteq> 0 then NegInf else Finite x) a (broadcast (length a) m)"

definition masked_fill :: "real list list \<Rightarrow> nat list list \<Rightarrow> error + score list list" where
  "masked_fill att mask_t =
     (if \<not> broadcastable (length att) mask_t then Inl RuntimeError
      else let rows = broadcast (length att) mask_t in
        if \<exists>(a, m) \<in> set (zip att rows). \<not> broadcastable (length a) m then Inl RuntimeError
        else Inr (map2 fill_row att rows))"

text \<open>
  \<^verbatim>\<open>F.softmax(att_weight, dim=-1)\<close> on one row: \<open>exp x\<^sub>j / (\<Sum>k. exp x\<^sub>k)\<close>, where the
  exponential of negative infinity is 0. PyTorch subtracts the row's maximum before it
  exponentiates, which leaves the quotient as it is when the maximum is finite; when every
  entry is negative infinity the difference is NaN, and so is every entry of the result.
\<close>

definition exp_score :: "score \<Rightarrow> real" where
  "exp_score s = (case s of Finite x \<Rightarrow> exp x | NegInf \<Rightarrow> 0)"

definition softmax_row :: "score list \<Rightarrow> fl list" where
  "softmax_row xs =
     (if \<forall>s \<in> set xs. s = NegInf then map (\<lambda>_. NaN) xs
      else let z = sum_list (map exp_score xs) in map (\<lambda>s. Val (exp_score s / z)) xs)"

text \<open>Arithmetic with NaN: a product or a sum with a NaN operand is NaN.\<close>

definition fl_mult :: "fl \<Rightarrow> real \<Rightarrow> fl" where
  "fl_mult w x = (case w of NaN \<Rightarrow> NaN | Val a \<Rightarrow> Val (a * x))"

definition fl_add :: "fl \<Rightarrow> fl \<Rightarrow> fl" where
  "fl_add a b = (case a of NaN \<Rightarrow> NaN | Val x \<Rightarrow> (case b of NaN \<Rightarrow> NaN | Val y \<Rightarrow> Val (x + y)))"

definition fl_sum :: "fl list \<Rightarrow> fl" where
  "fl_sum xs = foldr fl_add xs (Val 0)"

text \<open>
  \<^verbatim>\<open>torch.bmm(att_weight.view(*att_view), src_encoding).squeeze(1)\<close>: for every batch
  element the product of its weights, seen as a \<open>(1, src_sent_len)\<close> row, with its
  \<open>(src_sent_len, value_dim)\<close> matrix of encodings.
\<close>

definition weighted_sum :: "fl list \<Rightarrow> real list list \<Rightarrow> fl list" where
  "weighted_sum w rows = map (\<lambda>col. fl_sum (map2 fl_mult w col)) (transpose rows)"

definition bmm_row :: "fl list list \<Rightarrow> real list list list \<Rightarrow> error + fl list list" where
  "bmm_row w enc =
     (if length w \<noteq> length enc then Inl RuntimeError
      else if \<exists>(a, m) \<in> set (zip w enc). length a \<noteq> length m then Inl RuntimeError
      else Inr (map2 weighted_sum w enc))"

text \<open>The raw scores, then the scores after the optional mask, as separate steps of the routine.\<close>

definition apply_mask :: "real list list \<Rightarrow> nat list list option \<Rightarrow> error + score list list" where
  "apply_mask att mask_t =
     (case mask_t of None \<Rightarrow> Inr (map (map Finite) att) | Some m \<Rightarrow> masked_fill att m)"

definition dot_prod_attention ::
  "real list list \<Rightarrow> real list list list \<Rightarrow> real list list list \<Rightarrow> nat list list option
     \<Rightarrow> error + (fl list list \<times> fl list list)" where
  "dot_prod_attention h_t src_encoding src_encoding_att_linear mask_t =
     (case bmm_vec src_encoding_att_linear h_t of
        Inl e \<Rightarrow> Inl e
      | Inr raw \<Rightarrow>
          (case apply_mask raw mask_t of
             Inl e \<Rightarrow> Inl e
           | Inr filled \<Rightarrow>
               let att_weight = map softmax_row filled in
               (case bmm_row att_weight src_encoding of
                  Inl e \<Rightarrow> Inl e
                | Inr ctx_vec \<Rightarrow> Inr (ctx_vec, att_weight))))"


section \<open>The label-smoothing loss\<close>

text \<open>
  \<^verbatim>\<open>
  class LabelSmoothing(nn.Module):
      def __init__(self, smoothing, tgt_vocab_size, ignore_indices=None):
          if ignore_indices is None:
              ignore_indices = []

          super(LabelSmoothing, self).__init__()

          self.criterion = nn.KLDivLoss(reduction='none')
          smoothing_value = smoothing / float(tgt_vocab_size - 1 - len(ignore_indices))
          one_hot = torch.zeros((tgt_vocab_size,)).fill_(smoothing_value)
          for idx in ignore_indices:
              one_hot[idx] = 0.

          self.confidence = 1.0 - smoothing
          self.register_buffer('one_hot', one_hot.unsqueeze(0))

      def forward(self, model_prob, target):
          # (batch_size, *, tgt_vocab_size)
          dim = list(model_prob.size())[:-1] + [1]
          true_dist = self.one_hot.repeat(*dim)
          true_dist.scatter_(-1, target.unsqueeze(-1), self.confidence)

          return self.criterion(model_prob, true_dist).sum(dim=-1)
  \<close>
  \<^verbatim>\<open>forward\<close> writes into a tensor in place, so the tensors an instance and a call hold
  live in an explicit store: a tensor variable is an address, and the store maps the
  addresses allocated so far to their contents. Allocation appends a cell.
  \<^verbatim>\<open>model_prob\<close> is taken with one leading axis, \<open>(batch_size, tgt_vocab_size)\<close>, and
  \<^verbatim>\<open>target\<close> as the list of its \<open>batch_size\<close> indices; \<^verbatim>\<open>smoothing\<close> is a Python number.
\<close>

type_synonym addr = nat

type_synonym heap = "real list list list"

definition alloc :: "real list list \<Rightarrow> heap \<Rightarrow> addr \<times> heap" where
  "alloc t h = (length h, h @ [t])"

record LabelSmoothing =
  criterion :: "real list list \<Rightarrow> real list list \<Rightarrow> error + fl list list"
  confidence :: real
  one_hot :: addr

text \<open>
  \<^verbatim>\<open>nn.KLDivLoss(reduction='none')\<close> on an input \<open>x\<close> (a log-probability) and a target
  \<open>t\<close>: pointwise \<open>t * (log t - x)\<close>, which is 0 where \<open>t = 0\<close> and NaN where \<open>t < 0\<close>.
  The two tensors have equally many rows here; along the last axis they are broadcast.
\<close>

definition kl_point :: "real \<Rightarrow> real \<Rightarrow> fl" where
  "kl_point x t = (if t < 0 then NaN else if t = 0 then Val 0 else Val (t * (ln t - x)))"

definition kl_row :: "real list \<Rightarrow> real list \<Rightarrow> error + fl list" where
  "kl_row xs ts =
     (if length xs = length ts then Inr (map2 kl_point xs ts)
      else if length xs = 1 then Inr (map (kl_point (hd xs)) ts)
      else if length ts = 1 then Inr (map (\<lambda>x. kl_point x (hd ts)) xs)
      else Inl RuntimeError)"

fun KLDivLoss_none :: "real list list \<Rightarrow> real list list \<Rightarrow> error + fl list list" where
  "KLDivLoss_none [] [] = Inr []"
| "KLDivLoss_none (xs # xss) (ts # tss) =
     (case kl_row xs ts of
        Inl e \<Rightarrow> Inl e
      | Inr r \<Rightarrow> (case KLDivLoss_none xss tss of Inl e \<Rightarrow> Inl e | Inr rs \<Rightarrow> Inr (r # rs)))"
| "KLDivLoss_none _ _ = Inl RuntimeError"

text \<open>
  The loop \<^verbatim>\<open>for idx in ignore_indices: one_hot[idx] = 0.\<close> on the vector it fills. A
  negative index counts from the end; an index outside \<open>-n .. n - 1\<close> raises IndexError.
\<close>

fun zero_indices :: "real list \<Rightarrow> int list \<Rightarrow> error + real list" where
  "zero_indices v [] = Inr v"
| "zero_indices v (idx # rest) =
     (let n = int (length v); j = (if idx < 0 then n + idx else idx) in
      if 0 \<le> j \<and> j < n then zero_indices (v[nat j := 0]) rest else Inl IndexError)"

text \<open>
  The constructor. Dividing a Python number by \<^verbatim>\<open>float(0)\<close> raises ZeroDivisionError;
  \<^verbatim>\<open>torch.zeros\<close> raises RuntimeError on a negative size. The vector is local until
  \<^verbatim>\<open>register_buffer\<close> stores it, as a \<open>(1, tgt_vocab_size)\<close> tensor, in a new cell.
\<close>

definition LabelSmoothing_init ::
  "heap \<Rightarrow> real \<Rightarrow> int \<Rightarrow> int list option \<Rightarrow> heap \<times> (error + LabelSmoothing)" where
  "LabelSmoothing_init h smoothing tgt_vocab_size ignore_indices =
     (let ignore = (case ignore_indices of None \<Rightarrow> [] | Some l \<Rightarrow> l);
          denom = tgt_vocab_size - 1 - int (length ignore)
      in if denom = 0 then (h, Inl ZeroDivisionError)
         else let smoothing_value = smoothing / real_of_int denom
           in if tgt_vocab_size < 0 then (h, Inl RuntimeError)
              else (case zero_indices (replicate (nat tgt_vocab_size) smoothing_value) ignore of
                      Inl e \<Rightarrow> (h, Inl e)
                    | Inr v \<Rightarrow>
                        let (a, h') = alloc [v] h
                        in (h', Inr \<lparr>criterion = KLDivLoss_none,
                                     confidence = 1 - smoothing,
                                     one_hot = a\<rparr>)))"

text \<open>
  \<^verbatim>\<open>self.one_hot.repeat(*dim)\<close> with \<open>dim = [batch_size, 1]\<close>: \<^verbatim>\<open>repeat\<close> copies the data
  of its tensor into a new tensor, here \<open>batch_size\<close> copies of its rows.
\<close>

definition repeat :: "addr \<Rightarrow> nat \<Rightarrow> heap \<Rightarrow> addr \<times> heap" where
  "repeat a n h = alloc (concat (replicate n (h ! a))) h"

text \<open>
  \<^verbatim>\<open>true_dist.scatter_(-1, target.unsqueeze(-1), self.confidence)\<close>: for every row \<open>i\<close> of
  the index, entry \<open>target[i]\<close> of row \<open>i\<close> of the tensor at the address becomes the value,
  in place. The index may have fewer rows than the tensor, not more; an index entry
  outside \<open>0 .. tgt_vocab_size - 1\<close> raises RuntimeError. A call that raises leaves a
  tensor nothing refers to any more; the model keeps its contents as they were.
\<close>

fun scatter_rows :: "real list list \<Rightarrow> int list \<Rightarrow> real \<Rightarrow> error + real list list" where
  "scatter_rows t [] c = Inr t"
| "scatter_rows [] (i # ix) c = Inl RuntimeError"
| "scatter_rows (r # rs) (i # ix) c =
     (if 0 \<le> i \<and> i < int (length r)
      then (case scatter_rows rs ix c of Inl e \<Rightarrow> Inl e | Inr rs' \<Rightarrow> Inr (r[nat i := c] # rs'))
      else Inl RuntimeError)"

definition scatter :: "addr \<Rightarrow> int list \<Rightarrow> real \<Rightarrow> heap \<Rightarrow> heap \<times> (error + unit)" where
  "scatter a index c h =
     (case scatter_rows (h ! a) index c of
        Inl e \<Rightarrow> (h, Inl e)
      | Inr t \<Rightarrow> (h[a := t], Inr ()))"

text \<open>The first two statements of \<^verbatim>\<open>forward\<close>: they build \<^verbatim>\<open>true_dist\<close>.\<close>

definition build_true_dist ::
  "heap \<Rightarrow> LabelSmoothing \<Rightarrow> real list list \<Rightarrow> int list \<Rightarrow> heap \<times> (error + addr)" where
  "build_true_dist h self model_prob target =
     (let (true_dist, h1) = repeat (one_hot self) (length model_prob) h
      in (case scatter true_dist target (confidence self) h1 of
            (h2, Inl e) \<Rightarrow> (h2, Inl e)
          | (h2, Inr _) \<Rightarrow> (h2, Inr true_dist)))"

text \<open>\<^verbatim>\<open>.sum(dim=-1)\<close> adds up every row of the pointwise loss.\<close>

definition forward ::
  "heap \<Rightarrow> LabelSmoothing \<Rightarrow> real list list \<Rightarrow> int list \<Rightarrow> heap \<times> (error + fl list)" where
  "forward h self model_prob target =
     (case build_true_dist h self model_prob target of
        (h2, Inl e) \<Rightarrow> (h2, Inl e)
      | (h2, Inr true_dist) \<Rightarrow>
          (case criterion self model_prob (h2 ! true_dist) of
             Inl e \<Rightarrow> (h2, Inl e)
           | Inr loss \<Rightarrow> (h2, Inr (map fl_sum loss))))"

text \<open>A sequence of calls on one instance, each on the store the previous call left.\<close>

fun forward_calls ::
  "heap \<Rightarrow> LabelSmoothing \<Rightarrow> (real list list \<times> int list) list \<Rightarrow> heap" where
  "forward_calls h self [] = h"
| "forward_calls h self ((model_prob, target) # calls) =
     forward_calls (fst (forward h self model_prob target)) self calls"


section \<open>Facts about the mask builder\<close>

lemma fold_max_ge_init: "(x::int) \<le> fold max ys x"
  by (induction ys arbitrary: x) (auto intro: order_trans [OF max.cobounded2])

lemma fold_max_ge_elem: "y \<in> set ys \<Longrightarrow> (y::int) \<le> fold max ys x"
proof (induction ys arbitrary: x)
  case Nil
  then show ?case by simp
next
  case (Cons z zs)
  show ?case
  proof (cases "y = z")
    case True
    have "z \<le> max z x" by simp
    also have "\<dots> \<le> fold max zs (max z x)" by (rule fold_max_ge_init)
    finally show ?thesis using True by simp
  next
    case False
    with Cons.prems have "y \<in> set zs" by simp
    then show ?thesis using Cons.IH by simp
  qed
qed

lemma fold_max_mem: "fold max ys (x::int) \<in> set (x # ys)"
proof (induction ys arbitrary: x)
  case Nil
  then show ?case by simp
next
  case (Cons z zs)
  have step: "fold max zs (max z x) \<in> set (max z x # zs)" by (rule Cons.IH)
  have "max z x = z \<or> max z x = x" by (simp add: max_def)
  then have "set (max z x # zs) \<subseteq> set (x # z # zs)" by auto
  with step have "fold max zs (max z x) \<in> set (x # z # zs)" by blast
  then show ?case by simp
qed

lemma py_max_Inr:
  assumes "xs \<noteq> []"
  obtains m where "py_max xs = Inr m" and "m \<in> set xs" and "\<forall>x \<in> set xs. x \<le> m"
proof -
  from assms obtain x ys where xs: "xs = x # ys" by (cases xs) auto
  let ?m = "fold max ys x"
  have "py_max xs = Inr ?m" by (simp add: py_max_def xs)
  moreover have "?m \<in> set xs" unfolding xs by (rule fold_max_mem)
  moreover have "\<forall>z \<in> set xs. z \<le> ?m"
    unfolding xs using fold_max_ge_init [of x ys] fold_max_ge_elem [of _ ys x] by auto
  ultimately show thesis by (rule that)
qed

lemma mask_row_length: "length (mask_row v n k) = n"
  by (simp add: mask_row_def Let_def)

lemma mask_row_nth:
  "j < n \<Longrightarrow> mask_row v n k ! j =
     (if v then (if j < slice_bound n k then 1 else 0)
      else (if slice_bound n k \<le> j then 1 else 0))"
  by (simp add: mask_row_def Let_def)

lemma slice_bound_inside: "0 \<le> k \<Longrightarrow> k \<le> int n \<Longrightarrow> slice_bound n k = nat k"
  by (simp add: slice_bound_def)

lemma mask_row_split:
  assumes "0 \<le> k" and "k \<le> int n"
  shows "mask_row v n k = replicate (nat k) (valid_marker v) @ replicate (n - nat k) (padding_marker v)"
proof (rule nth_equalityI)
  show "length (mask_row v n k) =
        length (replicate (nat k) (valid_marker v) @ replicate (n - nat k) (padding_marker v))"
    using assms by (simp add: mask_row_length)
next
  fix j assume "j < length (mask_row v n k)"
  then have j: "j < n" by (simp add: mask_row_length)
  show "mask_row v n k ! j =
        (replicate (nat k) (valid_marker v) @ replicate (n - nat k) (padding_marker v)) ! j"
    using j assms
    by (simp add: mask_row_nth slice_bound_inside nth_append valid_marker_def padding_marker_def)
qed

lemma py_max_Max: "xs \<noteq> [] \<Longrightarrow> py_max xs = Inr (Max (set xs))"
proof -
  assume ne: "xs \<noteq> []"
  then obtain m where m: "py_max xs = Inr m" "m \<in> set xs" "\<forall>x \<in> set xs. x \<le> m"
    by (rule py_max_Inr)
  have "Max (set xs) = m"
    by (rule Max_eqI) (use m in auto)
  with m(1) show ?thesis by simp
qed

lemma mask_tensor_positive:
  assumes ne: "length_array \<noteq> []" and pos: "\<forall>l \<in> set length_array. 0 < l"
  shows "length_array_to_mask_tensor length_array v =
           Inr (map (mask_row v (nat (Max (set length_array)))) length_array)"
proof -
  from ne obtain l where "l \<in> set length_array" by (cases length_array) auto
  with pos have "0 < l" and "l \<le> Max (set length_array)" by auto
  then have "\<not> Max (set length_array) < 0" by linarith
  then show ?thesis
    by (simp add: length_array_to_mask_tensor_def py_max_Max [OF ne])
qed

lemma mask_tensor_ValueError:
  "is_failure (length_array_to_mask_tensor length_array v) \<Longrightarrow>
     length_array_to_mask_tensor length_array v = Inl ValueError"
  by (cases length_array)
     (simp_all add: length_array_to_mask_tensor_def py_max_def is_failure_def split: if_splits)

lemma mask_tensor_failure:
  "is_failure (length_array_to_mask_tensor length_array v) \<longleftrightarrow>
     length_array = [] \<or> Max (set length_array) < 0"
proof (cases "length_array = []")
  case True
  then show ?thesis
    by (simp add: length_array_to_mask_tensor_def py_max_def is_failure_def)
next
  case False
  then show ?thesis
    by (simp add: length_array_to_mask_tensor_def py_max_Max is_failure_def)
qed


section \<open>Claims about the mask builder\<close>

text \<open>
  Claim C3. For every non-empty list of positive lengths and either polarity flag,
  \<^verbatim>\<open>length_array_to_mask_tensor\<close> returns a matrix of shape \<open>(len(lengths), max(lengths))\<close>
  whose row \<open>i\<close> is \<open>lengths[i]\<close> entries with the valid-polarity marker followed by
  \<open>max(lengths) - lengths[i]\<close> entries with the padding-polarity marker, so that all
  padding comes after the valid entries; and \<open>lengths = [3, 1]\<close> with the default polarity
  (padding has value 1) yields \<open>[[0,0,0],[0,1,1]]\<close>.
\<close>

theorem mask_rows_valid_then_padding:
  "(length_array \<noteq> [] \<and> (\<forall>l \<in> set length_array. 0 < l) \<longrightarrow>
      (\<exists>m. length_array_to_mask_tensor length_array v = Inr m \<and>
           has_shape2 (length length_array) (nat (Max (set length_array))) m \<and>
           (\<forall>i < length length_array.
              m ! i = replicate (nat (length_array ! i)) (valid_marker v)
                    @ replicate (nat (Max (set length_array)) - nat (length_array ! i))
                        (padding_marker v))))
   \<and> length_array_to_mask_tensor [3, 1] False = Inr [[0, 0, 0], [0, 1, 1]]"
proof (intro conjI impI)
  assume hyp: "length_array \<noteq> [] \<and> (\<forall>l \<in> set length_array. 0 < l)"
  let ?n = "nat (Max (set length_array))"
  let ?m = "map (mask_row v ?n) length_array"
  have res: "length_array_to_mask_tensor length_array v = Inr ?m"
    using hyp by (simp add: mask_tensor_positive)
  have shape: "has_shape2 (length length_array) ?n ?m"
    by (auto simp: has_shape2_def mask_row_length)
  have rows: "?m ! i = replicate (nat (length_array ! i)) (valid_marker v)
                     @ replicate (?n - nat (length_array ! i)) (padding_marker v)"
    if i: "i < length length_array" for i
  proof -
    have mem: "length_array ! i \<in> set length_array" using i by simp
    then have nonneg: "0 \<le> length_array ! i" using hyp by force
    have "length_array ! i \<le> Max (set length_array)"
      using mem by (simp add: Max_ge)
    with nonneg have "length_array ! i \<le> int ?n" by linarith
    with nonneg show ?thesis using i by (simp add: mask_row_split)
  qed
  show "\<exists>m. length_array_to_mask_tensor length_array v = Inr m \<and>
           has_shape2 (length length_array) ?n m \<and>
           (\<forall>i < length length_array.
              m ! i = replicate (nat (length_array ! i)) (valid_marker v)
                    @ replicate (?n - nat (length_array ! i)) (padding_marker v))"
    using res shape rows by blast
next
  show "length_array_to_mask_tensor [3, 1] False = Inr [[0, 0, 0], [0, 1, 1]]"
    by code_simp
qed

theorem mask_rows_valid_then_padding_witness:
  "length_array_to_mask_tensor [2, 3] True = Inr [[1, 1, 0], [1, 1, 1]]"
proof -
  have hyp: "[2, 3] \<noteq> [] \<and> (\<forall>l \<in> set [2, 3 :: int]. 0 < l)" by simp
  from mask_rows_valid_then_padding [of "[2, 3]" True] hyp
  obtain m where m: "length_array_to_mask_tensor [2, 3] True = Inr m"
    and shape: "has_shape2 (length [2, 3 :: int]) (nat (Max (set [2, 3 :: int]))) m"
    and rows: "\<forall>i < length [2, 3 :: int].
          m ! i = replicate (nat ([2, 3 :: int] ! i)) (valid_marker True)
                @ replicate (nat (Max (set [2, 3 :: int])) - nat ([2, 3 :: int] ! i))
                    (padding_marker True)"
    by blast
  from shape have len: "length m = 2" by (simp add: has_shape2_def)
  from rows have r0: "m ! 0 = [1, 1, 0]"
    by (simp add: valid_marker_def padding_marker_def numeral_2_eq_2 numeral_3_eq_3)
  from rows have r1: "m ! 1 = [1, 1, 1]"
    by (simp add: valid_marker_def padding_marker_def numeral_3_eq_3)
  have "m = [[1, 1, 0], [1, 1, 1]]"
  proof (rule nth_equalityI)
    show "length m = length [[1, 1, 0], [1, 1, 1 :: nat]]" using len by simp
  next
    fix i assume "i < length m"
    then have "i = 0 \<or> i = 1" using len by auto
    then show "m ! i = [[1, 1, 0], [1, 1, 1]] ! i" using r0 r1 by auto
  qed
  with m show ?thesis by simp
qed

text \<open>
  Claim C4, as amended. \<^verbatim>\<open>length_array_to_mask_tensor\<close> fails exactly when its list
  of lengths is empty or every length is negative, and the failure is a ValueError; on
  every other list of integers it returns a mask, also when the list holds zero or
  negative lengths.
\<close>

theorem mask_builder_fails_iff:
  "(length_array_to_mask_tensor length_array v = Inl ValueError \<longleftrightarrow>
      length_array = [] \<or> (\<forall>l \<in> set length_array. l < 0))
   \<and> (is_failure (length_array_to_mask_tensor length_array v) \<longleftrightarrow>
      length_array = [] \<or> (\<forall>l \<in> set length_array. l < 0))
   \<and> (\<not> (length_array = [] \<or> (\<forall>l \<in> set length_array. l < 0)) \<longrightarrow>
      length_array_to_mask_tensor length_array v =
        Inr (map (mask_row v (nat (Max (set length_array)))) length_array))"
proof -
  let ?r = "length_array_to_mask_tensor length_array v"
  let ?c = "length_array = [] \<or> (\<forall>l \<in> set length_array. l < 0)"
  have fail: "is_failure ?r \<longleftrightarrow> ?c"
  proof (cases "length_array = []")
    case True
    then show ?thesis by (simp add: mask_tensor_failure)
  next
    case False
    then have "Max (set length_array) < 0 \<longleftrightarrow> (\<forall>l \<in> set length_array. l < 0)"
      by (simp add: Max_less_iff)
    with False show ?thesis by (simp add: mask_tensor_failure)
  qed
  have kind: "?r = Inl ValueError \<longleftrightarrow> ?c"
  proof
    assume "?r = Inl ValueError"
    then have "is_failure ?r" by (simp add: is_failure_def)
    with fail show ?c by simp
  next
    assume ?c
    with fail have "is_failure ?r" by simp
    then show "?r = Inl ValueError" by (rule mask_tensor_ValueError)
  qed
  have ok: "?r = Inr (map (mask_row v (nat (Max (set length_array)))) length_array)"
    if nc: "\<not> ?c"
  proof -
    from nc have ne: "length_array \<noteq> []" by simp
    from nc fail have "\<not> is_failure ?r" by simp
    then have "\<not> Max (set length_array) < 0" using ne by (simp add: mask_tensor_failure)
    then show ?thesis
      by (simp add: length_array_to_mask_tensor_def py_max_Max [OF ne])
  qed
  from kind fail ok show ?thesis by blast
qed

theorem mask_builder_fails_iff_witness:
  "length_array_to_mask_tensor [-1, -2] False = Inl ValueError
   \<and> length_array_to_mask_tensor [] True = Inl ValueError
   \<and> \<not> is_failure (length_array_to_mask_tensor [3, 0] False)
   \<and> length_array_to_mask_tensor [3, 0] False \<noteq> Inl ValueError"
  using mask_builder_fails_iff [of "[-1, -2]" False] mask_builder_fails_iff [of "[]" True]
    mask_builder_fails_iff [of "[3, 0]" False]
  by (simp add: is_failure_def)

text \<open>
  Claim C4 as stated fails: the list \<open>[3, 0]\<close> holds a length that is not positive and
  the function returns a mask for it, whose second row is marked as padding throughout.
\<close>

theorem mask_builder_accepts_zero_length:
  "(0::int) \<in> set [3, 0] \<and> \<not> (0::int) < 0
   \<and> length_array_to_mask_tensor [3, 0] False = Inr [[0, 0, 0], [1, 1, 1]]"
  by code_simp

text \<open>
  Claim C9. For every non-empty list of positive lengths, the mask built with
  \<^verbatim>\<open>valid_entry_has_mask_one=True\<close> is the elementwise complement of the mask built with
  \<^verbatim>\<open>valid_entry_has_mask_one=False\<close>: both have the same shape, and at every position one
  of them holds 1 and the other holds 0.
\<close>

theorem mask_polarities_complementary:
  assumes "length_array \<noteq> []" and "\<forall>l \<in> set length_array. 0 < l"
  shows "\<exists>m1 m0. length_array_to_mask_tensor length_array True = Inr m1 \<and>
           length_array_to_mask_tensor length_array False = Inr m0 \<and>
           length m1 = length m0 \<and>
           (\<forall>i < length m1. length (m1 ! i) = length (m0 ! i) \<and>
              (\<forall>j < length (m1 ! i).
                 (m1 ! i ! j = 1 \<and> m0 ! i ! j = 0) \<or> (m1 ! i ! j = 0 \<and> m0 ! i ! j = 1)))"
proof -
  let ?n = "nat (Max (set length_array))"
  let ?m1 = "map (mask_row True ?n) length_array"
  let ?m0 = "map (mask_row False ?n) length_array"
  have r1: "length_array_to_mask_tensor length_array True = Inr ?m1"
    and r0: "length_array_to_mask_tensor length_array False = Inr ?m0"
    using assms by (simp_all add: mask_tensor_positive)
  have pos: "(?m1 ! i ! j = 1 \<and> ?m0 ! i ! j = 0) \<or> (?m1 ! i ! j = 0 \<and> ?m0 ! i ! j = 1)"
    if "i < length length_array" and "j < ?n" for i j
    using that by (simp add: mask_row_nth)
  have "length ?m1 = length ?m0" by simp
  moreover have "\<forall>i < length ?m1. length (?m1 ! i) = length (?m0 ! i) \<and>
      (\<forall>j < length (?m1 ! i).
         (?m1 ! i ! j = 1 \<and> ?m0 ! i ! j = 0) \<or> (?m1 ! i ! j = 0 \<and> ?m0 ! i ! j = 1))"
  proof (intro allI impI conjI)
    fix i assume "i < length ?m1"
    then show "length (?m1 ! i) = length (?m0 ! i)" by (simp add: mask_row_length)
  next
    fix i j assume "i < length ?m1" and "j < length (?m1 ! i)"
    then have "i < length length_array" and "j < ?n" by (simp_all add: mask_row_length)
    then show "(?m1 ! i ! j = 1 \<and> ?m0 ! i ! j = 0) \<or> (?m1 ! i ! j = 0 \<and> ?m0 ! i ! j = 1)"
      by (rule pos)
  qed
  ultimately show ?thesis using r1 r0 by blast
qed

theorem mask_polarities_complementary_witness:
  "length_array_to_mask_tensor [3, 1] True = Inr [[1, 1, 1], [1, 0, 0]]
   \<and> length_array_to_mask_tensor [3, 1] False = Inr [[0, 0, 0], [0, 1, 1]]
   \<and> (\<exists>m1 m0. length_array_to_mask_tensor [3, 1] True = Inr m1 \<and>
           length_array_to_mask_tensor [3, 1] False = Inr m0 \<and>
           length m1 = length m0 \<and>
           (\<forall>i < length m1. length (m1 ! i) = length (m0 ! i) \<and>
              (\<forall>j < length (m1 ! i).
                 (m1 ! i ! j = 1 \<and> m0 ! i ! j = 0) \<or> (m1 ! i ! j = 0 \<and> m0 ! i ! j = 1))))"
proof (intro conjI)
  show "length_array_to_mask_tensor [3, 1] True = Inr [[1, 1, 1], [1, 0, 0]]" by code_simp
  show "length_array_to_mask_tensor [3, 1] False = Inr [[0, 0, 0], [0, 1, 1]]" by code_simp
  have "[3, 1 :: int] \<noteq> []" and "\<forall>l \<in> set [3, 1 :: int]. 0 < l" by simp_all
  then show "\<exists>m1 m0. length_array_to_mask_tensor [3, 1] True = Inr m1 \<and>
           length_array_to_mask_tensor [3, 1] False = Inr m0 \<and>
           length m1 = length m0 \<and>
           (\<forall>i < length m1. length (m1 ! i) = length (m0 ! i) \<and>
              (\<forall>j < length (m1 ! i).
                 (m1 ! i ! j = 1 \<and> m0 ! i ! j = 0) \<or> (m1 ! i ! j = 0 \<and> m0 ! i ! j = 1)))"
    by (rule mask_polarities_complementary)
qed

section \<open>Facts about the label-smoothing loss\<close>



lemma zero_indices_length:
  "zero_indices v ignore = Inr w \<Longrightarrow> length w = length v"
proof (induction ignore arbitrary: v)
  case Nil
  then show ?case by simp
next
  case (Cons idx rest)
  then show ?case by (fastforce simp: Let_def split: if_splits)
qed

lemma zero_indices_failure:
  "is_failure (zero_indices v ignore) \<longleftrightarrow>
     (\<exists>idx \<in> set ignore. idx < - int (length v) \<or> int (length v) \<le> idx)"
proof (induction ignore arbitrary: v)
  case Nil
  then show ?case by (simp add: is_failure_def)
next
  case (Cons idx rest)
  show ?case
  proof (cases "- int (length v) \<le> idx \<and> idx < int (length v)")
    case True
    then have "zero_indices v (idx # rest) =
        zero_indices (v[nat (if idx < 0 then int (length v) + idx else idx) := 0]) rest"
      by (auto simp: Let_def)
    then show ?thesis using True Cons.IH [of "v[nat (if idx < 0 then int (length v) + idx else idx) := 0]"]
      by auto
  next
    case False
    then have "zero_indices v (idx # rest) = Inl IndexError"
      by (auto simp: Let_def)
    then show ?thesis using False by (auto simp: is_failure_def)
  qed
qed

lemma zero_indices_nonneg:
  "\<forall>i \<in> set ignore. 0 \<le> i \<and> i < int (length v) \<Longrightarrow>
     zero_indices v ignore = Inr (map (\<lambda>j. if int j \<in> set ignore then 0 else v ! j) [0..<length v])"
proof (induction ignore arbitrary: v)
  case Nil
  then show ?case by (simp add: map_nth)
next
  case (Cons idx rest)
  let ?v = "v[nat idx := 0]"
  from Cons.prems have idx: "0 \<le> idx" "idx < int (length v)" by simp_all
  from Cons.prems have "\<forall>i \<in> set rest. 0 \<le> i \<and> i < int (length ?v)" by simp
  then have IH: "zero_indices ?v rest =
      Inr (map (\<lambda>j. if int j \<in> set rest then 0 else ?v ! j) [0..<length ?v])"
    by (rule Cons.IH)
  have step: "zero_indices v (idx # rest) = zero_indices ?v rest"
    using idx by (simp add: Let_def)
  have "map (\<lambda>j. if int j \<in> set rest then 0 else ?v ! j) [0..<length ?v] =
        map (\<lambda>j. if int j \<in> set (idx # rest) then 0 else v ! j) [0..<length v]"
  proof (rule map_cong)
    show "[0..<length ?v] = [0..<length v]" by simp
  next
    fix j assume "j \<in> set [0..<length v]"
    then have j: "j < length v" by simp
    show "(if int j \<in> set rest then 0 else ?v ! j) =
          (if int j \<in> set (idx # rest) then 0 else v ! j)"
    proof (cases "int j = idx")
      case True
      then have "nat idx = j" by simp
      then show ?thesis using j True by simp
    next
      case False
      then have "nat idx \<noteq> j" using idx by auto
      then show ?thesis using False by simp
    qed
  qed
  with step IH show ?case by simp
qed




lemma init_failure:
  "is_failure (snd (LabelSmoothing_init h smoothing tgt_vocab_size (Some ignore))) \<longleftrightarrow>
     tgt_vocab_size - 1 - int (length ignore) = 0 \<or> tgt_vocab_size < 0 \<or>
     (\<exists>idx \<in> set ignore. idx < - tgt_vocab_size \<or> tgt_vocab_size \<le> idx)"
proof (cases "tgt_vocab_size - 1 - int (length ignore) = 0 \<or> tgt_vocab_size < 0")
  case True
  then show ?thesis
    by (auto simp: LabelSmoothing_init_def Let_def is_failure_def)
next
  case False
  let ?sv = "smoothing / real_of_int (tgt_vocab_size - 1 - int (length ignore))"
  let ?v = "replicate (nat tgt_vocab_size) ?sv"
  have len: "int (length ?v) = tgt_vocab_size" using False by simp
  have "is_failure (snd (LabelSmoothing_init h smoothing tgt_vocab_size (Some ignore))) \<longleftrightarrow>
        is_failure (zero_indices ?v ignore)"
    using False
    by (auto simp: LabelSmoothing_init_def Let_def is_failure_def alloc_def split: sum.splits)
  also have "\<dots> \<longleftrightarrow> (\<exists>idx \<in> set ignore. idx < - int (length ?v) \<or> int (length ?v) \<le> idx)"
    by (rule zero_indices_failure)
  finally show ?thesis using False len by auto
qed

lemma init_success:
  assumes "tgt_vocab_size - 1 - int (length ignore) \<noteq> 0"
    and "0 \<le> tgt_vocab_size"
    and "\<forall>i \<in> set ignore. 0 \<le> i \<and> i < tgt_vocab_size"
  shows "LabelSmoothing_init h smoothing tgt_vocab_size (Some ignore) =
          (h @ [[map (\<lambda>j. if int j \<in> set ignore then 0
                           else smoothing / real_of_int (tgt_vocab_size - 1 - int (length ignore)))
                   [0..<nat tgt_vocab_size]]],
           Inr \<lparr>criterion = KLDivLoss_none, confidence = 1 - smoothing, one_hot = length h\<rparr>)"
proof -
  let ?sv = "smoothing / real_of_int (tgt_vocab_size - 1 - int (length ignore))"
  let ?v = "replicate (nat tgt_vocab_size) ?sv"
  have "\<forall>i \<in> set ignore. 0 \<le> i \<and> i < int (length ?v)"
    using assms(2,3) by simp
  then have "zero_indices ?v ignore =
      Inr (map (\<lambda>j. if int j \<in> set ignore then 0 else ?v ! j) [0..<length ?v])"
    by (rule zero_indices_nonneg)
  also have "map (\<lambda>j. if int j \<in> set ignore then 0 else ?v ! j) [0..<length ?v] =
      map (\<lambda>j. if int j \<in> set ignore then 0 else ?sv) [0..<nat tgt_vocab_size]"
    by (rule map_cong) simp_all
  finally have "zero_indices ?v ignore =
      Inr (map (\<lambda>j. if int j \<in> set ignore then 0 else ?sv) [0..<nat tgt_vocab_size])" .
  then show ?thesis
    using assms(1,2) by (simp add: LabelSmoothing_init_def Let_def alloc_def)
qed

lemma init_None: 
  "LabelSmoothing_init h smoothing tgt_vocab_size None =
   LabelSmoothing_init h smoothing tgt_vocab_size (Some [])"
  by (simp add: LabelSmoothing_init_def)


lemma init_Inr_D:
  assumes "LabelSmoothing_init h smoothing tgt_vocab_size (Some ignore) = (h1, Inr obj)"
  shows "tgt_vocab_size - 1 - int (length ignore) \<noteq> 0" and "0 \<le> tgt_vocab_size"
proof -
  have "\<not> is_failure (snd (LabelSmoothing_init h smoothing tgt_vocab_size (Some ignore)))"
    using assms by (simp add: is_failure_def)
  then have "\<not> (tgt_vocab_size - 1 - int (length ignore) = 0 \<or> tgt_vocab_size < 0)"
    by (simp add: init_failure)
  then show "tgt_vocab_size - 1 - int (length ignore) \<noteq> 0" and "0 \<le> tgt_vocab_size"
    by simp_all
qed


section \<open>Claims about the constructor of the label-smoothing loss\<close>

text \<open>
  Claim C5, as amended. Constructing \<^verbatim>\<open>LabelSmoothing\<close> fails exactly when
  \<open>vocab_size - 1 - len(ignore_indices)\<close> is 0 (ZeroDivisionError), when \<open>vocab_size\<close> is
  negative, or when an ignored index lies outside \<open>-vocab_size .. vocab_size - 1\<close>. A
  negative denominator alone does not make the construction fail.
\<close>

theorem init_fails_iff:
  "(is_failure (snd (LabelSmoothing_init h smoothing tgt_vocab_size (Some ignore))) \<longleftrightarrow>
      tgt_vocab_size - 1 - int (length ignore) = 0 \<or> tgt_vocab_size < 0 \<or>
      (\<exists>idx \<in> set ignore. idx < - tgt_vocab_size \<or> tgt_vocab_size \<le> idx))
   \<and> (tgt_vocab_size - 1 - int (length ignore) = 0 \<longrightarrow>
        LabelSmoothing_init h smoothing tgt_vocab_size (Some ignore) = (h, Inl ZeroDivisionError))"
proof (intro conjI impI)
  show "is_failure (snd (LabelSmoothing_init h smoothing tgt_vocab_size (Some ignore))) \<longleftrightarrow>
      tgt_vocab_size - 1 - int (length ignore) = 0 \<or> tgt_vocab_size < 0 \<or>
      (\<exists>idx \<in> set ignore. idx < - tgt_vocab_size \<or> tgt_vocab_size \<le> idx)"
    by (rule init_failure)
next
  assume "tgt_vocab_size - 1 - int (length ignore) = 0"
  then show "LabelSmoothing_init h smoothing tgt_vocab_size (Some ignore) = (h, Inl ZeroDivisionError)"
    by (simp add: LabelSmoothing_init_def)
qed

theorem init_fails_iff_witness:
  "LabelSmoothing_init [] (2 / 5) 2 (Some [0]) = ([], Inl ZeroDivisionError)
   \<and> is_failure (snd (LabelSmoothing_init [] (2 / 5) 2 (Some [0])))
   \<and> \<not> is_failure (snd (LabelSmoothing_init [] (2 / 5) 5 (Some [0])))
   \<and> \<not> is_failure (snd (LabelSmoothing_init [] (2 / 5) 2 (Some [0, 1])))"
  using init_fails_iff [of "[]" "2 / 5" 2 "[0]"] init_fails_iff [of "[]" "2 / 5" 5 "[0]"]
    init_fails_iff [of "[]" "2 / 5" 2 "[0, 1]"]
  by (simp add: is_failure_def)

text \<open>
  Claim C5 as stated fails: with \<open>vocab_size = 2\<close> and the ignored indices \<open>[0, 1]\<close> the
  denominator is \<open>-1\<close>, and the construction returns an instance, whose template is
  \<open>[0, 0]\<close>.
\<close>

theorem init_accepts_negative_denominator:
  "(2::int) - 1 - int (length [0, 1 :: int]) \<le> 0
   \<and> LabelSmoothing_init [] (1 / 10) 2 (Some [0, 1]) =
       ([[[0, 0]]], Inr \<lparr>criterion = KLDivLoss_none, confidence = 9 / 10, one_hot = 0\<rparr>)"
  by (simp add: LabelSmoothing_init_def alloc_def Let_def numeral_2_eq_2)

text \<open>
  Claim C10. Constructing \<^verbatim>\<open>LabelSmoothing\<close> with \<^verbatim>\<open>ignore_indices\<close> omitted (None)
  behaves exactly as constructing it with the empty list: the two constructions return the
  same result; when they return instances, every entry of either template is
  \<open>smoothing / (vocab_size - 1)\<close>, none forced to 0, and \<^verbatim>\<open>forward\<close> of the two instances
  agrees on every input.
\<close>

theorem init_default_ignore_is_empty:
  "LabelSmoothing_init h smoothing tgt_vocab_size None =
     LabelSmoothing_init h smoothing tgt_vocab_size (Some [])
   \<and> (\<forall>h1 o1 h2 o2.
        LabelSmoothing_init h smoothing tgt_vocab_size None = (h1, Inr o1) \<and>
        LabelSmoothing_init h smoothing tgt_vocab_size (Some []) = (h2, Inr o2) \<longrightarrow>
          h1 ! one_hot o1 =
            [replicate (nat tgt_vocab_size) (smoothing / real_of_int (tgt_vocab_size - 1))] \<and>
          h2 ! one_hot o2 =
            [replicate (nat tgt_vocab_size) (smoothing / real_of_int (tgt_vocab_size - 1))] \<and>
          (\<forall>model_prob target.
             forward h1 o1 model_prob target = forward h2 o2 model_prob target))"
proof (intro conjI allI impI)
  show same: "LabelSmoothing_init h smoothing tgt_vocab_size None =
     LabelSmoothing_init h smoothing tgt_vocab_size (Some [])"
    by (rule init_None)
  fix h1 o1 h2 o2
  assume both: "LabelSmoothing_init h smoothing tgt_vocab_size None = (h1, Inr o1) \<and>
        LabelSmoothing_init h smoothing tgt_vocab_size (Some []) = (h2, Inr o2)"
  then have r2: "LabelSmoothing_init h smoothing tgt_vocab_size (Some []) = (h2, Inr o2)"
    by simp
  from both have r1: "LabelSmoothing_init h smoothing tgt_vocab_size None = (h1, Inr o1)"
    by (rule conjunct1)
  have "(h1, Inr o1 :: error + LabelSmoothing) = (h2, Inr o2)"
    unfolding r1 [symmetric] r2 [symmetric] by (rule same)
  then have eq: "h1 = h2" "o1 = o2" by simp_all
  from init_Inr_D [OF r2] have denom: "tgt_vocab_size - 1 - int (length ([]::int list)) \<noteq> 0"
    and nonneg: "0 \<le> tgt_vocab_size" by simp_all
  have "LabelSmoothing_init h smoothing tgt_vocab_size (Some []) =
          (h @ [[map (\<lambda>j. if int j \<in> set [] then 0
                           else smoothing / real_of_int (tgt_vocab_size - 1 - int (length ([]::int list))))
                   [0..<nat tgt_vocab_size]]],
           Inr \<lparr>criterion = KLDivLoss_none, confidence = 1 - smoothing, one_hot = length h\<rparr>)"
    using denom nonneg by (rule init_success) simp
  with r2 have h2: "h2 = h @ [[map (\<lambda>j. smoothing / real_of_int (tgt_vocab_size - 1)) [0..<nat tgt_vocab_size]]]"
    and o2: "one_hot o2 = length h"
    by auto
  have "map (\<lambda>j. smoothing / real_of_int (tgt_vocab_size - 1)) [0..<nat tgt_vocab_size] =
        replicate (nat tgt_vocab_size) (smoothing / real_of_int (tgt_vocab_size - 1))"
    by (simp add: map_replicate_const)
  with h2 o2 show t2: "h2 ! one_hot o2 =
      [replicate (nat tgt_vocab_size) (smoothing / real_of_int (tgt_vocab_size - 1))]"
    by simp
  with eq show "h1 ! one_hot o1 =
      [replicate (nat tgt_vocab_size) (smoothing / real_of_int (tgt_vocab_size - 1))]"
    by simp
  fix model_prob target
  show "forward h1 o1 model_prob target = forward h2 o2 model_prob target"
    using eq by simp
qed

theorem init_default_ignore_is_empty_witness:
  "\<exists>h1 o1. LabelSmoothing_init [] (1 / 10) 3 None = (h1, Inr o1) \<and>
     LabelSmoothing_init [] (1 / 10) 3 (Some []) = (h1, Inr o1) \<and>
     h1 ! one_hot o1 = [[1 / 20, 1 / 20, 1 / 20]]"
proof -
  let ?o = "\<lparr>criterion = KLDivLoss_none, confidence = 1 - 1 / 10, one_hot = 0\<rparr>"
  let ?h = "[[[1 / 20, 1 / 20, 1 / 20 :: real]]]"
  have n: "LabelSmoothing_init [] (1 / 10) 3 None = (?h, Inr ?o)"
    by (simp add: LabelSmoothing_init_def alloc_def Let_def numeral_3_eq_3)
  have s: "LabelSmoothing_init [] (1 / 10) 3 (Some []) = (?h, Inr ?o)"
    by (simp add: LabelSmoothing_init_def alloc_def Let_def numeral_3_eq_3)
  from init_default_ignore_is_empty [of "[]" "1 / 10" 3] n s
  have "?h ! one_hot ?o = [replicate (nat 3) ((1 / 10) / real_of_int (3 - 1))]"
    by blast
  then have "?h ! one_hot ?o = [[1 / 20, 1 / 20, 1 / 20]]"
    by (simp add: numeral_3_eq_3)
  with n s show ?thesis by blast
qed

section \<open>Facts about the calls of the label-smoothing loss\<close>




lemma build_true_dist_heap:
  "\<exists>x. fst (build_true_dist h self model_prob target) = h @ [x]"
  by (auto simp: build_true_dist_def repeat_def alloc_def scatter_def split: sum.splits)

lemma build_true_dist_fresh:
  "build_true_dist h self model_prob target = (h2, Inr a) \<Longrightarrow> a = length h"
  by (auto simp: build_true_dist_def repeat_def alloc_def scatter_def split: sum.splits)

lemma forward_heap: "\<exists>x. fst (forward h self model_prob target) = h @ [x]"
proof -
  obtain x where "fst (build_true_dist h self model_prob target) = h @ [x]"
    using build_true_dist_heap by blast
  then have "fst (forward h self model_prob target) = h @ [x]"
    by (cases "build_true_dist h self model_prob target")
       (auto simp: forward_def split: sum.splits)
  then show ?thesis by blast
qed

lemma forward_calls_heap: "\<exists>xs. forward_calls h self calls = h @ xs"
proof (induction calls arbitrary: h)
  case Nil
  then show ?case by simp
next
  case (Cons c calls)
  obtain model_prob target where c: "c = (model_prob, target)" by (cases c)
  obtain x where x: "fst (forward h self model_prob target) = h @ [x]"
    using forward_heap by blast
  obtain xs where "forward_calls (h @ [x]) self calls = (h @ [x]) @ xs"
    using Cons.IH by blast
  then have "forward_calls h self (c # calls) = h @ (x # xs)"
    using c x by simp
  then show ?case by blast
qed




section \<open>Claims about the calls of the label-smoothing loss\<close>

text \<open>
  Claim C7. For every \<^verbatim>\<open>LabelSmoothing\<close> instance, whose template is a cell of the
  store, and every call to \<^verbatim>\<open>forward\<close>, whether it returns or raises, the template is
  the same after the call as before it; the tensor the call writes into is a new cell,
  not the template; and after any sequence of calls the template is still what it was.
\<close>

theorem forward_keeps_template:
  assumes "one_hot self < length h"
  shows "fst (forward h self model_prob target) ! one_hot self = h ! one_hot self
    \<and> (\<forall>h2 true_dist. build_true_dist h self model_prob target = (h2, Inr true_dist) \<longrightarrow>
          true_dist \<noteq> one_hot self \<and> h2 ! one_hot self = h ! one_hot self)
    \<and> forward_calls h self calls ! one_hot self = h ! one_hot self"
proof (intro conjI allI impI)
  obtain x where "fst (forward h self model_prob target) = h @ [x]"
    using forward_heap by blast
  then show "fst (forward h self model_prob target) ! one_hot self = h ! one_hot self"
    using assms by (simp add: nth_append)
next
  fix h2 true_dist
  assume b: "build_true_dist h self model_prob target = (h2, Inr true_dist)"
  then have "true_dist = length h" by (rule build_true_dist_fresh)
  then show "true_dist \<noteq> one_hot self" using assms by simp
next
  fix h2 true_dist
  assume b: "build_true_dist h self model_prob target = (h2, Inr true_dist)"
  obtain x where "fst (build_true_dist h self model_prob target) = h @ [x]"
    using build_true_dist_heap by blast
  with b have "h2 = h @ [x]" by simp
  then show "h2 ! one_hot self = h ! one_hot self"
    using assms by (simp add: nth_append)
next
  obtain xs where "forward_calls h self calls = h @ xs"
    using forward_calls_heap by blast
  then show "forward_calls h self calls ! one_hot self = h ! one_hot self"
    using assms by (simp add: nth_append)
qed

theorem forward_keeps_template_witness:
  "one_hot \<lparr>criterion = KLDivLoss_none, confidence = 3 / 5, one_hot = 0\<rparr>
      < length [[[0, 2 / 15, 2 / 15, 2 / 15, 2 / 15 :: real]]]
   \<and> fst (forward [[[0, 2 / 15, 2 / 15, 2 / 15, 2 / 15]]]
            \<lparr>criterion = KLDivLoss_none, confidence = 3 / 5, one_hot = 0\<rparr>
            [[0, 0, 0, 0, 0]] [2]) ! 0 = [[0, 2 / 15, 2 / 15, 2 / 15, 2 / 15]]
   \<and> forward_calls [[[0, 2 / 15, 2 / 15, 2 / 15, 2 / 15]]]
        \<lparr>criterion = KLDivLoss_none, confidence = 3 / 5, one_hot = 0\<rparr>
        [([[0, 0, 0, 0, 0]], [2]), ([[0, 0, 0, 0, 0], [0, 0, 0, 0, 0]], [0, 9])] ! 0
       = [[0, 2 / 15, 2 / 15, 2 / 15, 2 / 15]]"
  using forward_keeps_template
    [of "\<lparr>criterion = KLDivLoss_none, confidence = 3 / 5, one_hot = 0\<rparr>"
        "[[[0, 2 / 15, 2 / 15, 2 / 15, 2 / 15]]]" "[[0, 0, 0, 0, 0]]" "[2]"
        "[([[0, 0, 0, 0, 0]], [2]), ([[0, 0, 0, 0, 0], [0, 0, 0, 0, 0]], [0, 9])]"]
  by simp

lemma template_length:
  "length (map (\<lambda>j. if int j \<in> set ignore then 0 else (c::real)) [0..<n]) = n"
  by simp

lemma template_nth:
  "j < n \<Longrightarrow> map (\<lambda>j. if int j \<in> set ignore then 0 else (c::real)) [0..<n] ! j =
     (if int j \<in> set ignore then 0 else c)"
  by simp




section \<open>Claims about the distribution the label-smoothing loss builds\<close>






section \<open>Facts about the attention engine\<close>

lemma bmm_vec_ok:
  assumes "has_shape3 B L H m" and "has_shape2 B H v"
  shows "bmm_vec m v = Inr (map2 (\<lambda>rows q. map (\<lambda>r. dot r q) rows) m v)"
proof -
  have len: "length m = length v" using assms by (simp add: has_shape3_def has_shape2_def)
  have "\<not> (\<exists>(rows, q) \<in> set (zip m v). \<exists>r \<in> set rows. length r \<noteq> length q)"
  proof
    assume "\<exists>(rows, q) \<in> set (zip m v). \<exists>r \<in> set rows. length r \<noteq> length q"
    then obtain rows q r where z: "(rows, q) \<in> set (zip m v)" and r: "r \<in> set rows"
      and ne: "length r \<noteq> length q" by auto
    from z have "rows \<in> set m" and "q \<in> set v"
      by (auto dest: set_zip_leftD set_zip_rightD)
    with assms r have "length r = H" and "length q = H"
      by (auto simp: has_shape3_def has_shape2_def)
    with ne show False by simp
  qed
  with len show ?thesis by (simp add: bmm_vec_def)
qed

lemma bmm_vec_shape:
  assumes "has_shape3 B L H m" and "has_shape2 B H v"
  shows "has_shape2 B L (map2 (\<lambda>rows q. map (\<lambda>r. dot r q) rows) m v)"
proof -
  have "length m = B" and "length v = B" using assms by (simp_all add: has_shape3_def has_shape2_def)
  moreover have "length rows = L" if "(rows, q) \<in> set (zip m v)" for rows q
  proof -
    from that have "rows \<in> set m" by (rule set_zip_leftD)
    with assms(1) show ?thesis by (simp add: has_shape3_def has_shape2_def)
  qed
  ultimately show ?thesis by (auto simp: has_shape2_def)
qed

lemma broadcast_same: "length xs = n \<Longrightarrow> broadcast n xs = xs"
  by (simp add: broadcast_def)

lemma masked_fill_ok:
  assumes "has_shape2 B L att" and "has_shape2 B L m"
  shows "masked_fill att m =
           Inr (map2 (\<lambda>a r. map2 (\<lambda>x b. if b \<noteq> 0 then NegInf else Finite x) a r) att m)"
proof -
  have len: "length m = length att" using assms by (simp add: has_shape2_def)
  then have bc: "broadcast (length att) m = m" by (rule broadcast_same)
  have rows: "length r = length a" if "(a, r) \<in> set (zip att m)" for a r
  proof -
    from that have "a \<in> set att" and "r \<in> set m"
      by (auto dest: set_zip_leftD set_zip_rightD)
    with assms show ?thesis by (simp add: has_shape2_def)
  qed
  have ok: "\<not> (\<exists>(a, r) \<in> set (zip att m). \<not> broadcastable (length a) r)"
    using rows by (auto simp: broadcastable_def)
  have "map2 fill_row att m =
        map2 (\<lambda>a r. map2 (\<lambda>x b. if b \<noteq> 0 then NegInf else Finite x) a r) att m"
  proof (rule map_cong [OF refl])
    fix p assume p: "p \<in> set (zip att m)"
    obtain a r where ar: "p = (a, r)" by (cases p)
    with p rows have "length r = length a" by simp
    then show "(case p of (a, r) \<Rightarrow> fill_row a r) =
        (case p of (a, r) \<Rightarrow> map2 (\<lambda>x b. if b \<noteq> 0 then NegInf else Finite x) a r)"
      by (simp add: ar fill_row_def broadcast_same)
  qed
  then show ?thesis
    using len ok by (simp add: masked_fill_def bc broadcastable_def)
qed

lemma exp_score_nonneg: "0 \<le> exp_score s"
  by (cases s) (simp_all add: exp_score_def)

lemma exp_score_pos: "s \<noteq> NegInf \<Longrightarrow> 0 < exp_score s"
  by (cases s) (simp_all add: exp_score_def)

lemma sum_exp_score_nonneg: "0 \<le> sum_list (map exp_score xs)"
  by (induction xs) (simp_all add: exp_score_nonneg)

lemma sum_exp_score_pos:
  "\<exists>s \<in> set xs. s \<noteq> NegInf \<Longrightarrow> 0 < sum_list (map exp_score xs)"
proof (induction xs)
  case Nil
  then show ?case by simp
next
  case (Cons x xs)
  show ?case
  proof (cases "x = NegInf")
    case True
    with Cons.prems have "\<exists>s \<in> set xs. s \<noteq> NegInf" by simp
    then have "0 < sum_list (map exp_score xs)" by (rule Cons.IH)
    then show ?thesis using exp_score_nonneg [of x] by simp
  next
    case False
    then have "0 < exp_score x" by (rule exp_score_pos)
    then show ?thesis using sum_exp_score_nonneg [of xs] by simp
  qed
qed

lemma fl_sum_Val: "fl_sum (map (\<lambda>s. Val (f s)) xs) = Val (sum_list (map f xs))"
  by (induction xs) (simp_all add: fl_sum_def fl_add_def)

lemma softmax_row_length: "length (softmax_row xs) = length xs"
  by (simp add: softmax_row_def Let_def)

lemma softmax_row_unmasked:
  assumes "\<exists>s \<in> set xs. s \<noteq> NegInf"
  shows "softmax_row xs = map (\<lambda>s. Val (exp_score s / sum_list (map exp_score xs))) xs"
  using assms by (auto simp: softmax_row_def Let_def)

lemma softmax_row_sum:
  assumes "\<exists>s \<in> set xs. s \<noteq> NegInf"
  shows "fl_sum (softmax_row xs) = Val 1"
proof -
  let ?z = "sum_list (map exp_score xs)"
  have z: "0 < ?z" using assms by (rule sum_exp_score_pos)
  have "sum_list (map (\<lambda>s. exp_score s / ?z) xs) = sum_list (map (\<lambda>s. exp_score s * inverse ?z) xs)"
    by (simp add: divide_inverse)
  also have "\<dots> = ?z * inverse ?z" by (simp add: sum_list_mult_const)
  also have "\<dots> = 1" using z by simp
  finally have "sum_list (map (\<lambda>s. exp_score s / ?z) xs) = 1" .
  then show ?thesis
    by (simp add: softmax_row_unmasked [OF assms] fl_sum_Val)
qed

lemma softmax_row_masked_zero:
  assumes "\<exists>s \<in> set xs. s \<noteq> NegInf" and "j < length xs" and "xs ! j = NegInf"
  shows "softmax_row xs ! j = Val 0"
  using assms(2,3) by (simp add: softmax_row_unmasked [OF assms(1)] exp_score_def)

lemma softmax_row_all_masked:
  assumes "\<forall>s \<in> set xs. s = NegInf"
  shows "softmax_row xs = replicate (length xs) NaN"
  using assms by (simp add: softmax_row_def map_replicate_const)

lemma bmm_row_ok:
  assumes "has_shape2 B L w" and "has_shape3 B L D enc"
  shows "bmm_row w enc = Inr (map2 weighted_sum w enc)"
proof -
  have len: "length w = length enc" using assms by (simp add: has_shape2_def has_shape3_def)
  have "\<not> (\<exists>(a, m) \<in> set (zip w enc). length a \<noteq> length m)"
  proof
    assume "\<exists>(a, m) \<in> set (zip w enc). length a \<noteq> length m"
    then obtain a m where z: "(a, m) \<in> set (zip w enc)" and ne: "length a \<noteq> length m" by auto
    from z have "a \<in> set w" and "m \<in> set enc"
      by (auto dest: set_zip_leftD set_zip_rightD)
    with assms have "length a = L" and "length m = L"
      by (auto simp: has_shape2_def has_shape3_def)
    with ne show False by simp
  qed
  with len show ?thesis by (simp add: bmm_row_def)
qed

lemma exp_one_bounds: "2718 / 1000 < exp (1::real) \<and> exp (1::real) < 2719 / 1000"
proof -
  obtain t :: real where t: "\<bar>t\<bar> \<le> \<bar>1\<bar>"
    and e: "exp (1::real) = (\<Sum>m<7. (1 ^ m) / fact m) + (exp t / fact 7) * 1 ^ 7"
    using Maclaurin_exp_le [of 1 7] by blast
  have s: "(\<Sum>m<7. ((1::real) ^ m) / fact m) = 1957 / 720"
    by (simp add: eval_nat_numeral)
  have f: "(fact 7 :: real) = 5040" by (simp add: eval_nat_numeral)
  define r where "r = exp t"
  from t have "t \<le> 1" by simp
  then have "exp t \<le> exp 1" by simp
  also have "\<dots> \<le> 3" by (rule exp_le)
  finally have up: "r \<le> 3" by (simp add: r_def)
  have lo: "0 < r" by (simp add: r_def)
  from e s f have eq: "exp (1::real) = 1957 / 720 + r / 5040" by (simp add: r_def)
  from eq lo have "2718 / 1000 < exp (1::real)" by linarith
  moreover from eq up have "exp (1::real) < 2719 / 1000" by linarith
  ultimately show ?thesis by blast
qed

lemma softmax_example_bounds:
  "\<bar>exp 2 / (exp 2 + exp 1) - 731 / 1000\<bar> < (1 / 2000 :: real)
   \<and> \<bar>exp 1 / (exp 2 + exp 1) - 269 / 1000\<bar> < (1 / 2000 :: real)"
proof -
  define e :: real where "e = exp 1"
  have lo: "2718 / 1000 < e" and hi: "e < 2719 / 1000"
    using exp_one_bounds by (simp_all add: e_def)
  have e2: "exp (2::real) = e * e"
    using exp_add [of "1::real" 1] by (simp add: e_def)
  have pos: "0 < e" using lo by simp
  have "e * e / (e * e + e) = e * e / (e * (e + 1))" by (simp add: algebra_simps)
  also have "\<dots> = e / (e + 1)" using pos by simp
  finally have a: "exp 2 / (exp 2 + exp 1) = e / (e + 1)"
    unfolding e2 e_def [symmetric] .
  have "e / (e * e + e) = e / (e * (e + 1))" by (simp add: algebra_simps)
  also have "\<dots> = 1 / (e + 1)" using pos by simp
  finally have b: "exp 1 / (exp 2 + exp 1) = 1 / (e + 1)"
    unfolding e2 e_def [symmetric] .
  have "\<bar>e / (e + 1) - 731 / 1000\<bar> < 1 / 2000"
    using lo hi pos by (simp add: abs_less_iff field_simps)
  moreover have "\<bar>1 / (e + 1) - 269 / 1000\<bar> < 1 / 2000"
    using lo hi pos by (simp add: abs_less_iff field_simps)
  ultimately show ?thesis unfolding a b by blast
qed

lemma attention_example:
  "dot_prod_attention [[1]] [[[0], [0], [0]]] [[[2], [1], [0]]] (Some [[0, 0, 1]]) =
     Inr ([[Val 0]], [[Val (exp 2 / (exp 2 + exp 1)), Val (exp 1 / (exp 2 + exp 1)), Val 0]])"
  by (simp add: dot_prod_attention_def bmm_vec_def dot_def apply_mask_def masked_fill_def
      broadcastable_def broadcast_def fill_row_def softmax_row_def exp_score_def Let_def
      bmm_row_def weighted_sum_def fl_sum_def fl_add_def fl_mult_def)

lemma attention_masked_result:
  assumes h: "has_shape2 B H h_t" and enc: "has_shape3 B L D src_encoding"
    and lin: "has_shape3 B L H src_encoding_att_linear" and m: "has_shape2 B L m"
  defines "raw \<equiv> map2 (\<lambda>rows q. map (\<lambda>r. dot r q) rows) src_encoding_att_linear h_t"
  defines "filled \<equiv> map2 (\<lambda>a r. map2 (\<lambda>x b. if b \<noteq> 0 then NegInf else Finite x) a r) raw m"
  shows "bmm_vec src_encoding_att_linear h_t = Inr raw"
    and "apply_mask raw (Some m) = Inr filled"
    and "has_shape2 B L raw"
    and "has_shape2 B L filled"
    and "has_shape2 B L (map softmax_row filled)"
    and "dot_prod_attention h_t src_encoding src_encoding_att_linear (Some m) =
           Inr (map2 weighted_sum (map softmax_row filled) src_encoding, map softmax_row filled)"
proof -
  show raw: "bmm_vec src_encoding_att_linear h_t = Inr raw"
    unfolding raw_def using lin h by (rule bmm_vec_ok)
  show rs: "has_shape2 B L raw"
    unfolding raw_def using lin h by (rule bmm_vec_shape)
  show fill: "apply_mask raw (Some m) = Inr filled"
    unfolding filled_def using masked_fill_ok [OF rs m] by (simp add: apply_mask_def)
  have lens: "length raw = B" "length m = B" using rs m by (simp_all add: has_shape2_def)
  show fs: "has_shape2 B L filled"
    unfolding has_shape2_def
  proof (intro conjI ballI)
    show "length filled = B" using lens by (simp add: filled_def)
  next
    fix f assume "f \<in> set filled"
    then obtain a r where ar: "(a, r) \<in> set (zip raw m)"
      and f: "f = map2 (\<lambda>x b. if b \<noteq> 0 then NegInf else Finite x) a r"
      by (auto simp: filled_def)
    from ar have "a \<in> set raw" and "r \<in> set m"
      by (auto dest: set_zip_leftD set_zip_rightD)
    with rs m have "length a = L" and "length r = L" by (simp_all add: has_shape2_def)
    then show "length f = L" by (simp add: f)
  qed
  show ws: "has_shape2 B L (map softmax_row filled)"
    using fs by (auto simp: has_shape2_def softmax_row_length)
  have "bmm_row (map softmax_row filled) src_encoding =
      Inr (map2 weighted_sum (map softmax_row filled) src_encoding)"
    using ws enc by (rule bmm_row_ok)
  then show "dot_prod_attention h_t src_encoding src_encoding_att_linear (Some m) =
           Inr (map2 weighted_sum (map softmax_row filled) src_encoding, map softmax_row filled)"
    by (simp add: dot_prod_attention_def raw fill Let_def)
qed

lemma attention_scores_nth:
  assumes h: "has_shape2 B H h_t" and lin: "has_shape3 B L H src_encoding_att_linear"
    and m: "has_shape2 B L m" and i: "i < B" and j: "j < L"
  defines "raw \<equiv> map2 (\<lambda>rows q. map (\<lambda>r. dot r q) rows) src_encoding_att_linear h_t"
  defines "filled \<equiv> map2 (\<lambda>a r. map2 (\<lambda>x b. if b \<noteq> 0 then NegInf else Finite x) a r) raw m"
  shows "raw ! i ! j = dot (src_encoding_att_linear ! i ! j) (h_t ! i)"
    and "filled ! i ! j = (if m ! i ! j \<noteq> 0 then NegInf else Finite (raw ! i ! j))"
proof -
  have lens: "length src_encoding_att_linear = B" "length h_t = B" "length m = B"
    using h lin m by (simp_all add: has_shape2_def has_shape3_def)
  have "src_encoding_att_linear ! i \<in> set src_encoding_att_linear"
    using i lens by simp
  with lin have ll: "length (src_encoding_att_linear ! i) = L"
    by (simp add: has_shape3_def has_shape2_def)
  have "m ! i \<in> set m" using i lens by simp
  with m have ml: "length (m ! i) = L" by (simp add: has_shape2_def)
  have ri: "raw ! i = map (\<lambda>r. dot r (h_t ! i)) (src_encoding_att_linear ! i)"
    using i lens by (simp add: raw_def)
  show "raw ! i ! j = dot (src_encoding_att_linear ! i ! j) (h_t ! i)"
    using j ll by (simp add: ri)
  have rl: "length (raw ! i) = L" using ll by (simp add: ri)
  have rB: "length raw = B" using lens by (simp add: raw_def)
  have fi: "filled ! i = map2 (\<lambda>x b. if b \<noteq> 0 then NegInf else Finite x) (raw ! i) (m ! i)"
    using i lens rB by (simp add: filled_def)
  show "filled ! i ! j = (if m ! i ! j \<noteq> 0 then NegInf else Finite (raw ! i ! j))"
    using j rl ml by (simp add: fi)
qed

lemma has_shape2_nth: "has_shape2 B L x \<Longrightarrow> i < B \<Longrightarrow> length (x ! i) = L"
  by (simp add: has_shape2_def)

lemma fl_sum_replicate_NaN: "0 < n \<Longrightarrow> fl_sum (replicate n NaN) = NaN"
  by (cases n) (simp_all add: fl_sum_def fl_add_def)

lemma map2_fl_mult_NaN:
  "length col = n \<Longrightarrow> map2 fl_mult (replicate n NaN) col = replicate n NaN"
  by (rule nth_equalityI) (simp_all add: fl_mult_def)

lemma weighted_sum_NaN:
  assumes "has_shape2 L D rows" and "0 < L"
  shows "weighted_sum (replicate L NaN) rows = replicate D NaN"
proof -
  have len: "length rows = L" and each: "\<forall>i < length rows. length (rows ! i) = D"
    using assms(1) by (simp_all add: has_shape2_def)
  have "transpose rows = map (\<lambda>i. map (\<lambda>j. rows ! j ! i) [0..<length rows]) [0..<D]"
  proof (rule transpose_rectangle)
    assume "rows = []"
    with len assms(2) show "D = 0" by simp
  next
    fix i assume "i < length rows"
    with each show "length (rows ! i) = D" by simp
  qed
  then have "weighted_sum (replicate L NaN) rows =
      map (\<lambda>i. fl_sum (map2 fl_mult (replicate L NaN) (map (\<lambda>j. rows ! j ! i) [0..<L]))) [0..<D]"
    by (simp add: weighted_sum_def len comp_def)
  also have "\<dots> = map (\<lambda>i. NaN) [0..<D]"
    using assms(2) by (simp add: map2_fl_mult_NaN fl_sum_replicate_NaN)
  also have "\<dots> = replicate D NaN" by (simp add: map_replicate_const)
  finally show ?thesis .
qed


section \<open>Claims about the attention engine\<close>

text \<open>
  Claim C1. For every batch of the documented shapes in which each row of the mask has an
  entry 0, \<^verbatim>\<open>dot_prod_attention\<close> returns, and it masks the raw scores before the softmax:
  the scores the softmax receives are negative infinity where the mask is nonzero and the
  raw score where the mask is 0; every position whose mask entry is nonzero has weight 0;
  and every row of the returned weights sums to 1. For the single row of raw scores
  \<open>[2, 1, 0]\<close> with mask \<open>[0, 0, 1]\<close> the weights are \<open>[0.731, 0.269, 0]\<close> to three places.
  Scores and weights are real numbers.
\<close>

theorem masked_attention_weights:
  "(has_shape2 B H h_t \<and> has_shape3 B L D src_encoding \<and>
    has_shape3 B L H src_encoding_att_linear \<and> has_shape2 B L m \<and>
    (\<forall>row \<in> set m. \<exists>b \<in> set row. b = 0) \<longrightarrow>
    (\<exists>raw filled ctx_vec att_weight.
       bmm_vec src_encoding_att_linear h_t = Inr raw \<and>
       apply_mask raw (Some m) = Inr filled \<and>
       dot_prod_attention h_t src_encoding src_encoding_att_linear (Some m) =
         Inr (ctx_vec, att_weight) \<and>
       att_weight = map softmax_row filled \<and>
       has_shape2 B L att_weight \<and>
       (\<forall>i < B.
          (\<forall>j < L. raw ! i ! j = dot (src_encoding_att_linear ! i ! j) (h_t ! i)) \<and>
          (\<forall>j < L. filled ! i ! j = (if m ! i ! j \<noteq> 0 then NegInf else Finite (raw ! i ! j))) \<and>
          (\<forall>j < L. m ! i ! j \<noteq> 0 \<longrightarrow> att_weight ! i ! j = Val 0) \<and>
          fl_sum (att_weight ! i) = Val 1)))
   \<and> bmm_vec [[[2], [1], [0]]] [[1]] = Inr [[2, 1, 0]]
   \<and> (\<exists>ctx_vec a b.
        dot_prod_attention [[1]] [[[0], [0], [0]]] [[[2], [1], [0]]] (Some [[0, 0, 1]]) =
          Inr (ctx_vec, [[Val a, Val b, Val 0]]) \<and>
        \<bar>a - 731 / 1000\<bar> < 1 / 2000 \<and> \<bar>b - 269 / 1000\<bar> < 1 / 2000)"
proof (intro conjI impI)
  assume hyp: "has_shape2 B H h_t \<and> has_shape3 B L D src_encoding \<and>
    has_shape3 B L H src_encoding_att_linear \<and> has_shape2 B L m \<and>
    (\<forall>row \<in> set m. \<exists>b \<in> set row. b = 0)"
  let ?raw = "map2 (\<lambda>rows q. map (\<lambda>r. dot r q) rows) src_encoding_att_linear h_t"
  let ?filled = "map2 (\<lambda>a r. map2 (\<lambda>x b. if b \<noteq> 0 then NegInf else Finite x) a r) ?raw m"
  let ?w = "map softmax_row ?filled"
  let ?ctx = "map2 weighted_sum ?w src_encoding"
  from hyp have h: "has_shape2 B H h_t" and enc: "has_shape3 B L D src_encoding"
    and lin: "has_shape3 B L H src_encoding_att_linear" and m: "has_shape2 B L m"
    and free: "\<forall>row \<in> set m. \<exists>b \<in> set row. b = 0"
    by simp_all
  note res = attention_masked_result [OF h enc lin m]
  have fB: "length ?filled = B" using res(4) by (simp add: has_shape2_def)
  have rows: "(\<forall>j < L. ?raw ! i ! j = dot (src_encoding_att_linear ! i ! j) (h_t ! i)) \<and>
          (\<forall>j < L. ?filled ! i ! j = (if m ! i ! j \<noteq> 0 then NegInf else Finite (?raw ! i ! j))) \<and>
          (\<forall>j < L. m ! i ! j \<noteq> 0 \<longrightarrow> ?w ! i ! j = Val 0) \<and>
          fl_sum (?w ! i) = Val 1"
    if i: "i < B" for i
  proof -
    note nth = attention_scores_nth [OF h lin m i]
    have wi: "?w ! i = softmax_row (?filled ! i)" using i fB by simp
    have fl: "length (?filled ! i) = L" using res(4) i by (rule has_shape2_nth)
    have mi: "m ! i \<in> set m" using i m by (simp add: has_shape2_def)
    with m have ml: "length (m ! i) = L" by (simp add: has_shape2_def)
    from free mi have "\<exists>b \<in> set (m ! i). b = 0" by blast
    then obtain k where k: "k < L" and zero: "m ! i ! k = 0"
      using ml by (auto simp: in_set_conv_nth)
    have "?filled ! i ! k = Finite (?raw ! i ! k)" using nth(2) [OF k] zero by simp
    moreover have "?filled ! i ! k \<in> set (?filled ! i)"
      by (rule nth_mem) (simp only: fl k)
    ultimately have un: "\<exists>s \<in> set (?filled ! i). s \<noteq> NegInf" by force
    have a: "\<forall>j < L. ?raw ! i ! j = dot (src_encoding_att_linear ! i ! j) (h_t ! i)"
      using nth(1) by blast
    have b: "\<forall>j < L. ?filled ! i ! j = (if m ! i ! j \<noteq> 0 then NegInf else Finite (?raw ! i ! j))"
      using nth(2) by blast
    have c: "\<forall>j < L. m ! i ! j \<noteq> 0 \<longrightarrow> ?w ! i ! j = Val 0"
    proof (intro allI impI)
      fix j assume j: "j < L" and nz: "m ! i ! j \<noteq> 0"
      have "?filled ! i ! j = NegInf" using nth(2) [OF j] nz by simp
      with un j fl show "?w ! i ! j = Val 0"
        unfolding wi by (intro softmax_row_masked_zero) simp_all
    qed
    have d: "fl_sum (?w ! i) = Val 1"
      unfolding wi using un by (rule softmax_row_sum)
    from a b c d show ?thesis by blast
  qed
  show "\<exists>raw filled ctx_vec att_weight.
       bmm_vec src_encoding_att_linear h_t = Inr raw \<and>
       apply_mask raw (Some m) = Inr filled \<and>
       dot_prod_attention h_t src_encoding src_encoding_att_linear (Some m) =
         Inr (ctx_vec, att_weight) \<and>
       att_weight = map softmax_row filled \<and>
       has_shape2 B L att_weight \<and>
       (\<forall>i < B.
          (\<forall>j < L. raw ! i ! j = dot (src_encoding_att_linear ! i ! j) (h_t ! i)) \<and>
          (\<forall>j < L. filled ! i ! j = (if m ! i ! j \<noteq> 0 then NegInf else Finite (raw ! i ! j))) \<and>
          (\<forall>j < L. m ! i ! j \<noteq> 0 \<longrightarrow> att_weight ! i ! j = Val 0) \<and>
          fl_sum (att_weight ! i) = Val 1)"
  proof (intro exI conjI)
    show "bmm_vec src_encoding_att_linear h_t = Inr ?raw" by (rule res(1))
    show "apply_mask ?raw (Some m) = Inr ?filled" by (rule res(2))
    show "dot_prod_attention h_t src_encoding src_encoding_att_linear (Some m) = Inr (?ctx, ?w)"
      by (rule res(6))
    show "?w = map softmax_row ?filled" by (rule refl)
    show "has_shape2 B L ?w" by (rule res(5))
    show "\<forall>i < B.
          (\<forall>j < L. ?raw ! i ! j = dot (src_encoding_att_linear ! i ! j) (h_t ! i)) \<and>
          (\<forall>j < L. ?filled ! i ! j = (if m ! i ! j \<noteq> 0 then NegInf else Finite (?raw ! i ! j))) \<and>
          (\<forall>j < L. m ! i ! j \<noteq> 0 \<longrightarrow> ?w ! i ! j = Val 0) \<and>
          fl_sum (?w ! i) = Val 1"
      using rows by blast
  qed
next
  show "bmm_vec [[[2], [1], [0]]] [[1]] = Inr [[2, 1, 0]]"
    by (simp add: bmm_vec_def dot_def)
next
  show "\<exists>ctx_vec a b.
        dot_prod_attention [[1]] [[[0], [0], [0]]] [[[2], [1], [0]]] (Some [[0, 0, 1]]) =
          Inr (ctx_vec, [[Val a, Val b, Val 0]]) \<and>
        \<bar>a - 731 / 1000\<bar> < 1 / 2000 \<and> \<bar>b - 269 / 1000\<bar> < 1 / 2000"
    using attention_example softmax_example_bounds by blast
qed

theorem masked_attention_weights_witness:
  "\<exists>ctx_vec att_weight.
     dot_prod_attention [[1]] [[[0], [0], [0]]] [[[2], [1], [0]]] (Some [[0, 0, 1]]) =
       Inr (ctx_vec, att_weight) \<and>
     att_weight ! 0 ! 2 = Val 0 \<and> fl_sum (att_weight ! 0) = Val 1"
proof -
  have hyp: "has_shape2 1 1 [[1 :: real]] \<and> has_shape3 1 3 1 [[[0 :: real], [0], [0]]] \<and>
    has_shape3 1 3 1 [[[2 :: real], [1], [0]]] \<and> has_shape2 1 3 [[0, 0, 1 :: nat]] \<and>
    (\<forall>row \<in> set [[0, 0, 1 :: nat]]. \<exists>b \<in> set row. b = 0)"
    by (simp add: has_shape2_def has_shape3_def)
  note T = masked_attention_weights [where B = 1 and H = 1 and L = 3 and D = 1
      and h_t = "[[1]]" and src_encoding = "[[[0], [0], [0]]]"
      and src_encoding_att_linear = "[[[2], [1], [0]]]" and m = "[[0, 0, 1]]",
      THEN conjunct1, THEN mp, OF hyp]
  from T obtain raw filled ctx_vec att_weight where
    res: "dot_prod_attention [[1]] [[[0], [0], [0]]] [[[2], [1], [0]]] (Some [[0, 0, 1]]) =
       Inr (ctx_vec, att_weight)"
    and rows: "\<forall>i < (1::nat).
          (\<forall>j < (3::nat). raw ! i ! j = dot ([[[2], [1], [0]]] ! i ! j) ([[1]] ! i)) \<and>
          (\<forall>j < (3::nat). filled ! i ! j =
             (if [[0, 0, 1 :: nat]] ! i ! j \<noteq> 0 then NegInf else Finite (raw ! i ! j))) \<and>
          (\<forall>j < (3::nat). [[0, 0, 1 :: nat]] ! i ! j \<noteq> 0 \<longrightarrow> att_weight ! i ! j = Val 0) \<and>
          fl_sum (att_weight ! i) = Val 1"
    by (elim exE conjE)
  from rows have "(0::nat) < 1 \<longrightarrow>
          (\<forall>j < (3::nat). raw ! 0 ! j = dot ([[[2], [1], [0]]] ! 0 ! j) ([[1]] ! 0)) \<and>
          (\<forall>j < (3::nat). filled ! 0 ! j =
             (if [[0, 0, 1 :: nat]] ! 0 ! j \<noteq> 0 then NegInf else Finite (raw ! 0 ! j))) \<and>
          (\<forall>j < (3::nat). [[0, 0, 1 :: nat]] ! 0 ! j \<noteq> 0 \<longrightarrow> att_weight ! 0 ! j = Val 0) \<and>
          fl_sum (att_weight ! 0) = Val 1"
    by (rule spec)
  then have r0: "(\<forall>j < (3::nat). [[0, 0, 1 :: nat]] ! 0 ! j \<noteq> 0 \<longrightarrow> att_weight ! 0 ! j = Val 0) \<and>
          fl_sum (att_weight ! 0) = Val 1"
    by simp
  then have "\<forall>j < (3::nat). [[0, 0, 1 :: nat]] ! 0 ! j \<noteq> 0 \<longrightarrow> att_weight ! 0 ! j = Val 0"
    by (rule conjunct1)
  then have "(2::nat) < 3 \<longrightarrow> [[0, 0, 1 :: nat]] ! 0 ! 2 \<noteq> 0 \<longrightarrow> att_weight ! 0 ! 2 = Val 0"
    by (rule spec)
  then have z: "att_weight ! 0 ! 2 = Val 0" by simp
  from r0 have s: "fl_sum (att_weight ! 0) = Val 1" by simp
  from res z s show ?thesis by blast
qed

text \<open>
  Claim C6, as amended. When \<^verbatim>\<open>dot_prod_attention\<close> is called, on tensors of the
  documented shapes with at least one source position, with a mask that has a row whose
  entries are all nonzero, the call raises nothing: it returns, every attention weight of
  that row is NaN, and every entry of that row of the context vector is NaN.
\<close>

theorem fully_masked_row_gives_nan:
  assumes h: "has_shape2 B H h_t" and enc: "has_shape3 B L D src_encoding"
    and lin: "has_shape3 B L H src_encoding_att_linear" and m: "has_shape2 B L m"
    and i: "i < B" and L: "0 < L" and full: "\<forall>b \<in> set (m ! i). b \<noteq> 0"
  shows "\<exists>ctx_vec att_weight.
     dot_prod_attention h_t src_encoding src_encoding_att_linear (Some m) =
       Inr (ctx_vec, att_weight) \<and>
     att_weight ! i = replicate L NaN \<and> ctx_vec ! i = replicate D NaN"
proof -
  let ?raw = "map2 (\<lambda>rows q. map (\<lambda>r. dot r q) rows) src_encoding_att_linear h_t"
  let ?filled = "map2 (\<lambda>a r. map2 (\<lambda>x b. if b \<noteq> 0 then NegInf else Finite x) a r) ?raw m"
  let ?w = "map softmax_row ?filled"
  let ?ctx = "map2 weighted_sum ?w src_encoding"
  note res = attention_masked_result [OF h enc lin m]
  have fB: "length ?filled = B" using res(4) by (simp add: has_shape2_def)
  have fl: "length (?filled ! i) = L" using res(4) i by (rule has_shape2_nth)
  have ml: "length (m ! i) = L" using m i by (rule has_shape2_nth)
  have all: "\<forall>s \<in> set (?filled ! i). s = NegInf"
  proof
    fix s assume "s \<in> set (?filled ! i)"
    then obtain j where j: "j < L" and s: "s = ?filled ! i ! j"
      using fl by (auto simp: in_set_conv_nth)
    have "m ! i ! j \<in> set (m ! i)" by (rule nth_mem) (simp only: ml j)
    with full have "m ! i ! j \<noteq> 0" by blast
    then show "s = NegInf"
      unfolding s using attention_scores_nth(2) [OF h lin m i j] by simp
  qed
  have wi: "?w ! i = softmax_row (?filled ! i)" using i fB by simp
  have w: "?w ! i = replicate L NaN"
    unfolding wi using softmax_row_all_masked [OF all] fl by simp
  have encB: "length src_encoding = B" using enc by (simp add: has_shape3_def)
  have "src_encoding ! i \<in> set src_encoding" using i encB by simp
  with enc have ei: "has_shape2 L D (src_encoding ! i)" by (simp add: has_shape3_def)
  have wB: "length ?w = B" using fB by simp
  have "?ctx ! i = weighted_sum (?w ! i) (src_encoding ! i)"
    using i wB encB by (simp del: map_map)
  also have "\<dots> = replicate D NaN"
    unfolding w using ei L by (rule weighted_sum_NaN)
  finally have c: "?ctx ! i = replicate D NaN" .
  from res(6) w c show ?thesis by blast
qed

theorem fully_masked_row_gives_nan_witness:
  "\<exists>ctx_vec att_weight.
     dot_prod_attention [[1], [1]] [[[5], [6]], [[7], [8]]] [[[2], [1]], [[4], [3]]]
         (Some [[0, 1], [1, 1]]) = Inr (ctx_vec, att_weight) \<and>
     att_weight ! 1 = [NaN, NaN] \<and> ctx_vec ! 1 = [NaN]"
proof -
  have "\<exists>ctx_vec att_weight.
     dot_prod_attention [[1], [1]] [[[5], [6]], [[7], [8]]] [[[2], [1]], [[4], [3]]]
         (Some [[0, 1], [1, 1]]) = Inr (ctx_vec, att_weight) \<and>
     att_weight ! 1 = replicate 2 NaN \<and> ctx_vec ! 1 = replicate 1 NaN"
    by (rule fully_masked_row_gives_nan [where B = 2 and H = 1])
       (simp_all add: has_shape2_def has_shape3_def)
  then show ?thesis by (simp add: numeral_2_eq_2)
qed

text \<open>
  Claim C6 as stated fails: for one batch element with one source position that the mask
  suppresses, the call returns a pair of tensors, each holding NaN, and no error.
\<close>

theorem fully_masked_row_returns:
  "dot_prod_attention [[1]] [[[5]]] [[[2]]] (Some [[1]]) = Inr ([[NaN]], [[NaN]])"
  by (simp add: dot_prod_attention_def bmm_vec_def dot_def apply_mask_def masked_fill_def
      broadcastable_def broadcast_def fill_row_def softmax_row_def Let_def
      bmm_row_def weighted_sum_def fl_sum_def fl_add_def fl_mult_def)

end
